theory Spec2Isabelle
  imports Complex_Main "HOL-Library.Word"
begin

section \<open>Event transports and the asynchronous event bus of mcp\_agent.logging.transport\<close>

text \<open>
  The development embeds \<^verbatim>\<open>src/mcp_agent/logging/transport.py\<close>. Every coroutine of the
  module is a function that takes the object it is a method of together with the
  observable world (the HTTP requests attempted, the lines written to standard output and
  the calls made on collaborators) and returns how the call ended together with the updated
  object and world. The calls are taken one after the other, so the
  \<^verbatim>\<open>asyncio.Lock\<close> of the HTTP transport is free at every call and has no field.
\<close>

subsection \<open>Exceptions and outcomes\<close>

text \<open>
  \<^verbatim>\<open>ValueError\<close> is what \<^verbatim>\<open>create_transport\<close> raises; \<open>Exception\<close> stands for
  every other instance of Python's \<^verbatim>\<open>Exception\<close> class (connection failures, timeouts,
  errors of a collaborator); \<^verbatim>\<open>asyncio.CancelledError\<close> derives from
  \<^verbatim>\<open>BaseException\<close> only, so an \<^verbatim>\<open>except Exception\<close> clause lets it pass.
\<close>

datatype py_exn = ValueError string | Exception string | CancelledError

fun isinstance_Exception :: "py_exn \<Rightarrow> bool" where
  "isinstance_Exception (ValueError m) = True"
| "isinstance_Exception (Exception m) = True"
| "isinstance_Exception CancelledError = False"

datatype outcome = Returns | Raises py_exn

subsection \<open>Events\<close>

type_synonym json_object = "(string \<times> string) list"

text \<open>
  Modelled from the spec: the record \<^verbatim>\<open>Event\<close>, declared in
  \<^verbatim>\<open>mcp_agent.logging.events\<close>, with the fields the specification lists, which are the
  ones this module reads and writes: timestamp, type, name (optional), namespace, message,
  data, the two tracing fields and the optional context. The time stamp is kept as its
  \<^verbatim>\<open>isoformat()\<close> rendering, the context as the dictionary \<^verbatim>\<open>context.dict()\<close> gives.
\<close>

record event =
  ev_timestamp :: string
  ev_type :: string
  ev_name :: "string option"
  ev_namespace :: string
  ev_message :: string
  ev_data :: json_object
  trace_id :: "string option"
  span_id :: "string option"
  ev_context :: "json_object option"

subsection \<open>The observable world\<close>

datatype stdout_line =
    HttpStatusError string nat string
  | HttpSendError string py_exn
  | TransportSendError py_exn
  | ConsoleText "(string \<times> string) list"
  | ConsoleJSON json_object

datatype call =
    SendEvent event
  | StartHook string
  | StopHook string
  | HandleEvent string event

text \<open>
  A POST that was attempted is recorded with its endpoint and its JSON body, one
  \<^typ>\<open>event\<close> per record of the array, whether or not the server answered.
\<close>

record world =
  posts :: "(string \<times> event list) list"
  stdout :: "stdout_line list"
  calls :: "call list"

text \<open>
  What the remote end does with a POST is not decided by the module: it answers with a
  status and a body, or the request raises. The answer to the \<open>k\<close>-th request attempted
  (counted from zero) is \<open>net k\<close>.
\<close>

datatype post_outcome = Response nat string | PostRaises py_exn

type_synonym network = "nat \<Rightarrow> post_outcome"

subsection \<open>HTTPTransport\<close>

record client_session =
  session_headers :: "(string \<times> string) list"
  session_timeout :: rat

record http_transport =
  endpoint :: string
  headers :: "(string \<times> string) list"
  batch_size :: int
  timeout :: rat
  batch :: "event list"
  session :: "client_session option"

definition HTTPTransport_init ::
  "string \<Rightarrow> (string \<times> string) list option \<Rightarrow> int \<Rightarrow> rat \<Rightarrow> http_transport" where
  "HTTPTransport_init ep hs bs tmo =
     \<lparr>endpoint = ep,
      headers = (case hs of None \<Rightarrow> [] | Some h \<Rightarrow> h),
      batch_size = bs,
      timeout = tmo,
      batch = [],
      session = None\<rparr>"

definition HTTPTransport_start :: "http_transport \<Rightarrow> http_transport" where
  "HTTPTransport_start t =
     (if session t = None
      then t\<lparr>session := Some \<lparr>session_headers = headers t, session_timeout = timeout t\<rparr>\<rparr>
      else t)"

text \<open>
  The record of the JSON array for one event: the nine keys of the dictionary built in
  \<^verbatim>\<open>_flush\<close> are the nine fields of the event, so the record is the event itself.
\<close>

definition events_data :: "event list \<Rightarrow> event list" where
  "events_data b = map (\<lambda>e.
     \<lparr>ev_timestamp = ev_timestamp e, ev_type = ev_type e, ev_name = ev_name e,
      ev_namespace = ev_namespace e, ev_message = ev_message e, ev_data = ev_data e,
      trace_id = trace_id e, span_id = span_id e, ev_context = ev_context e\<rparr>) b"

text \<open>
  The body of the \<^verbatim>\<open>try\<close> block of \<^verbatim>\<open>_flush\<close>: the request is attempted, a status
  of 400 or more is printed, an exception of the request leaves the block.
\<close>

definition flush_try :: "network \<Rightarrow> http_transport \<Rightarrow> world \<Rightarrow> outcome \<times> world" where
  "flush_try net t w =
     (let w1 = w\<lparr>posts := posts w @ [(endpoint t, events_data (batch t))]\<rparr>
      in case net (length (posts w)) of
           Response status body \<Rightarrow>
             (if status \<ge> 400
              then (Returns, w1\<lparr>stdout := stdout w1 @ [HttpStatusError (endpoint t) status body]\<rparr>)
              else (Returns, w1))
         | PostRaises e \<Rightarrow> (Raises e, w1))"

text \<open>
  \<^verbatim>\<open>_flush\<close>: nothing on an empty batch; the session is opened when there is none;
  \<^verbatim>\<open>except Exception\<close> prints and swallows, anything else keeps propagating;
  \<^verbatim>\<open>finally\<close> clears the batch on every path.
\<close>

definition HTTPTransport_flush ::
  "network \<Rightarrow> http_transport \<Rightarrow> world \<Rightarrow> outcome \<times> http_transport \<times> world" where
  "HTTPTransport_flush net t w =
     (if batch t = [] then (Returns, t, w)
      else
        let t1 = (if session t = None then HTTPTransport_start t else t);
            (r, w1) = flush_try net t1 w;
            (r2, w2) = (case r of
                          Returns \<Rightarrow> (Returns, w1)
                        | Raises e \<Rightarrow>
                            (if isinstance_Exception e
                             then (Returns, w1\<lparr>stdout := stdout w1 @ [HttpSendError (endpoint t1) e]\<rparr>)
                             else (Raises e, w1)))
        in (r2, t1\<lparr>batch := []\<rparr>, w2))"

definition HTTPTransport_send_event ::
  "network \<Rightarrow> event \<Rightarrow> http_transport \<Rightarrow> world \<Rightarrow> outcome \<times> http_transport \<times> world" where
  "HTTPTransport_send_event net e t w =
     (let t1 = t\<lparr>batch := batch t @ [e]\<rparr>
      in if int (length (batch t1)) \<ge> batch_size t1
         then HTTPTransport_flush net t1 w
         else (Returns, t1, w))"

text \<open>
  \<^verbatim>\<open>stop\<close>: a non-empty batch is flushed; when the flush returns, an open session is
  closed and forgotten. An exception leaving the flush leaves \<^verbatim>\<open>stop\<close> before that.
\<close>

definition HTTPTransport_stop ::
  "network \<Rightarrow> http_transport \<Rightarrow> world \<Rightarrow> outcome \<times> http_transport \<times> world" where
  "HTTPTransport_stop net t w =
     (let (r, t1, w1) = (if batch t \<noteq> [] then HTTPTransport_flush net t w else (Returns, t, w))
      in case r of
           Raises e \<Rightarrow> (Raises e, t1, w1)
         | Returns \<Rightarrow> (Returns, (if session t1 \<noteq> None then t1\<lparr>session := None\<rparr> else t1), w1))"

subsection \<open>NoOpTransport and ConsoleTransport\<close>

definition NoOpTransport_send_event :: "event \<Rightarrow> world \<Rightarrow> outcome \<times> world" where
  "NoOpTransport_send_event e w = (Returns, w)"

definition log_level_styles :: "(string \<times> string) list" where
  "log_level_styles =
     [(''info'', ''bold green''), (''debug'', ''dim white''),
      (''warning'', ''bold yellow''), (''error'', ''bold red'')]"

text \<open>\<^verbatim>\<open>str.upper\<close> on the ASCII letters, which is what the level names are made of.\<close>

definition upper_char :: "char \<Rightarrow> char" where
  "upper_char c =
     (let k = (of_char c :: nat)
      in if 97 \<le> k \<and> k \<le> 122 then char_of (k - 32) else c)"

definition ConsoleTransport_send_event :: "event \<Rightarrow> world \<Rightarrow> outcome \<times> world" where
  "ConsoleTransport_send_event e w =
     (let style = (case map_of log_level_styles (ev_type e) of None \<Rightarrow> ''white'' | Some s \<Rightarrow> s);
          namespace = (case ev_name e of
                         None \<Rightarrow> ev_namespace e
                       | Some n \<Rightarrow> (if n = [] then ev_namespace e else ev_namespace e @ ''.'' @ n));
          log_text = [(''['' @ map upper_char (ev_type e) @ ''] '', style),
                      (ev_timestamp e @ '' '', ''cyan''),
                      (namespace @ '' '', ''magenta''),
                      (''- '' @ ev_message e, ''white'')];
          w1 = w\<lparr>stdout := stdout w @ [ConsoleText log_text]\<rparr>
      in if ev_data e \<noteq> []
         then (Returns, w1\<lparr>stdout := stdout w1 @ [ConsoleJSON (ev_data e)]\<rparr>)
         else (Returns, w1))"

subsection \<open>The EventTransport protocol\<close>

text \<open>
  The three transports of the module, and \<open>OtherTransport\<close> for any other implementation
  of the protocol, of which the bus sees only how \<^verbatim>\<open>send_event\<close> ends on each event.
\<close>

datatype transport =
    NoOpTransport
  | ConsoleTransport
  | HTTPTransport http_transport
  | OtherTransport "event \<Rightarrow> outcome"

fun send_event :: "network \<Rightarrow> event \<Rightarrow> transport \<Rightarrow> world \<Rightarrow> outcome \<times> transport \<times> world" where
  "send_event net e NoOpTransport w =
     (let (r, w1) = NoOpTransport_send_event e w in (r, NoOpTransport, w1))"
| "send_event net e ConsoleTransport w =
     (let (r, w1) = ConsoleTransport_send_event e w in (r, ConsoleTransport, w1))"
| "send_event net e (HTTPTransport t) w =
     (let (r, t1, w1) = HTTPTransport_send_event net e t w in (r, HTTPTransport t1, w1))"
| "send_event net e (OtherTransport f) w = (f e, OtherTransport f, w)"

subsection \<open>The transport factory\<close>

text \<open>
  Modelled from the spec: the record \<^verbatim>\<open>LoggerSettings\<close>, declared in
  \<^verbatim>\<open>mcp_agent.config\<close>: a discriminant and, for \<^verbatim>\<open>http\<close>, an endpoint, optional
  headers, a batch size and a timeout. These are the fields \<^verbatim>\<open>create_transport\<close>
  reads. The discriminant is a string, as the code compares it with strings and has a
  branch for any other value; \<^verbatim>\<open>not settings.http_endpoint\<close> holds of \<^verbatim>\<open>None\<close> and
  of the empty string.
\<close>

record logger_settings =
  settings_type :: string
  http_endpoint :: "string option"
  http_headers :: "(string \<times> string) list option"
  settings_batch_size :: int
  http_timeout :: rat

definition create_transport :: "logger_settings \<Rightarrow> py_exn + transport" where
  "create_transport settings =
     (if settings_type settings = ''none'' then Inr NoOpTransport
      else if settings_type settings = ''console'' then Inr ConsoleTransport
      else if settings_type settings = ''http'' then
        (case http_endpoint settings of
           None \<Rightarrow> Inl (ValueError ''HTTP endpoint required for HTTP transport'')
         | Some ep \<Rightarrow>
             (if ep = [] then Inl (ValueError ''HTTP endpoint required for HTTP transport'')
              else Inr (HTTPTransport (HTTPTransport_init ep (http_headers settings)
                          (settings_batch_size settings) (http_timeout settings)))))
      else Inl (ValueError (''Unsupported transport type: '' @ settings_type settings)))"

subsection \<open>Listeners and the tracing context\<close>

text \<open>
  Modelled from the spec: the listener contract of \<^verbatim>\<open>mcp_agent.logging.listeners\<close>
  (\<^verbatim>\<open>handle_event\<close>, and \<^verbatim>\<open>start\<close> and \<^verbatim>\<open>stop\<close> for a lifecycle-aware
  listener). A listener is a collaborator: \<open>lifecycle\<close> says whether it is an instance
  of \<^verbatim>\<open>LifecycleAwareListener\<close>, the other fields how its \<^verbatim>\<open>start\<close>, \<^verbatim>\<open>stop\<close>
  and \<^verbatim>\<open>handle_event\<close> end.
\<close>

record listener =
  lifecycle :: bool
  start_hook :: outcome
  stop_hook :: outcome
  handle_event :: "event \<Rightarrow> outcome"

text \<open>
  Modelled from the spec: the current span and its context, which the tracing library
  provides. The context carries a 128-bit trace id and a 64-bit span id (the
  32-hex-digit and 16-hex-digit identifiers of the specification).
\<close>

record span_context =
  ctx_trace_id :: "128 word"
  ctx_span_id :: "64 word"

record span =
  is_recording :: bool
  get_span_context :: span_context

text \<open>
  Python's format specification \<^verbatim>\<open>0{width}x\<close> on an integer: lowercase hexadecimal
  digits, a minus sign for a negative number, and zeros between sign and digits up to
  the width.
\<close>

definition hex_digit :: "nat \<Rightarrow> char" where
  "hex_digit d = ''0123456789abcdef'' ! d"

fun hex_digits :: "nat \<Rightarrow> string" where
  "hex_digits n =
     (if n < 16 then [hex_digit n] else hex_digits (n div 16) @ [hex_digit (n mod 16)])"

declare hex_digits.simps [simp del]

definition format_zero_padded_hex :: "nat \<Rightarrow> int \<Rightarrow> string" where
  "format_zero_padded_hex width n =
     (let sign = (if n < 0 then ''-'' else []);
          ds = hex_digits (nat \<bar>n\<bar>)
      in sign @ replicate (width - length sign - length ds) (CHR ''0'') @ ds)"

text \<open>The number a string of lowercase hexadecimal digits denotes.\<close>

definition hex_digit_value :: "char \<Rightarrow> nat" where
  "hex_digit_value c =
     (let k = (of_char c :: nat) in if 97 \<le> k then k - 87 else k - 48)"

definition hex_value :: "string \<Rightarrow> nat" where
  "hex_value s = foldl (\<lambda>a c. 16 * a + hex_digit_value c) 0 s"

subsection \<open>AsyncEventBus\<close>

datatype dispatch_task = ProcessEvents

text \<open>
  The dictionary of listeners keeps insertion order, so it is a list of pairs with
  distinct names.
\<close>

record bus =
  transport :: transport
  listeners :: "(string \<times> listener) list"
  queue :: "event list"
  task :: "dispatch_task option"
  running :: bool
  stop_event :: bool

definition AsyncEventBus_init :: "transport option \<Rightarrow> bus" where
  "AsyncEventBus_init tr =
     \<lparr>transport = (case tr of None \<Rightarrow> NoOpTransport | Some t \<Rightarrow> t),
      listeners = [],
      queue = [],
      task = None,
      running = False,
      stop_event = False\<rparr>"

text \<open>
  \<^verbatim>\<open>get\<close>: the class attribute \<^verbatim>\<open>_instance\<close> is the first argument and the first
  component of the result; the second component is the bus returned.
\<close>

definition AsyncEventBus_get :: "bus option \<Rightarrow> transport option \<Rightarrow> bus option \<times> bus" where
  "AsyncEventBus_get instance tr =
     (case instance of
        None \<Rightarrow> (let b = AsyncEventBus_init tr in (Some b, b))
      | Some b \<Rightarrow>
          (case tr of
             Some t \<Rightarrow> (let b1 = b\<lparr>transport := t\<rparr> in (Some b1, b1))
           | None \<Rightarrow> (Some b, b)))"

fun dict_set :: "string \<Rightarrow> 'v \<Rightarrow> (string \<times> 'v) list \<Rightarrow> (string \<times> 'v) list" where
  "dict_set k v [] = [(k, v)]"
| "dict_set k v ((k1, v1) # d) = (if k1 = k then (k, v) # d else (k1, v1) # dict_set k v d)"

definition add_listener :: "string \<Rightarrow> listener \<Rightarrow> bus \<Rightarrow> bus" where
  "add_listener n l b = b\<lparr>listeners := dict_set n l (listeners b)\<rparr>"

definition remove_listener :: "string \<Rightarrow> bus \<Rightarrow> bus" where
  "remove_listener n b = b\<lparr>listeners := filter (\<lambda>(k, l). k \<noteq> n) (listeners b)\<rparr>"

text \<open>The loop of \<^verbatim>\<open>start\<close> over the listeners: the first hook that raises ends it.\<close>

fun start_listeners :: "(string \<times> listener) list \<Rightarrow> world \<Rightarrow> outcome \<times> world" where
  "start_listeners [] w = (Returns, w)"
| "start_listeners ((n, l) # ls) w =
     (if lifecycle l
      then (let w1 = w\<lparr>calls := calls w @ [StartHook n]\<rparr>
            in case start_hook l of
                 Raises e \<Rightarrow> (Raises e, w1)
               | Returns \<Rightarrow> start_listeners ls w1)
      else start_listeners ls w)"

definition AsyncEventBus_start :: "bus \<Rightarrow> world \<Rightarrow> outcome \<times> bus \<times> world" where
  "AsyncEventBus_start b w =
     (if running b then (Returns, b, w)
      else case start_listeners (listeners b) w of
             (Raises e, w1) \<Rightarrow> (Raises e, b, w1)
           | (Returns, w1) \<Rightarrow>
               (Returns, b\<lparr>stop_event := False, running := True, task := Some ProcessEvents\<rparr>, w1))"

text \<open>
  The loop of \<^verbatim>\<open>stop\<close> over the listeners has the shape of the loop of \<^verbatim>\<open>start\<close>:
  no \<^verbatim>\<open>try\<close> surrounds the call of the hook.
\<close>

fun stop_listeners :: "(string \<times> listener) list \<Rightarrow> world \<Rightarrow> outcome \<times> world" where
  "stop_listeners [] w = (Returns, w)"
| "stop_listeners ((n, l) # ls) w =
     (if lifecycle l
      then (let w1 = w\<lparr>calls := calls w @ [StopHook n]\<rparr>
            in case stop_hook l of
                 Raises e \<Rightarrow> (Raises e, w1)
               | Returns \<Rightarrow> stop_listeners ls w1)
      else stop_listeners ls w)"

text \<open>
  One event handed to every registered listener, as the background task
  \<^verbatim>\<open>_process_events\<close> does when it takes the event from the queue. The calls are
  gathered concurrently there; they are recorded in registration order.
\<close>

definition dispatch_event :: "(string \<times> listener) list \<Rightarrow> event \<Rightarrow> world \<Rightarrow> world" where
  "dispatch_event ls e w = w\<lparr>calls := calls w @ map (\<lambda>(n, l). HandleEvent n e) ls\<rparr>"

text \<open>
  \<^verbatim>\<open>stop\<close>. While it waits in \<^verbatim>\<open>self._queue.join()\<close> the background task hands the
  queued events to the listeners; with events queued and no task nothing ever marks them
  done and \<^verbatim>\<open>stop\<close> does not return, which is the result \<open>None\<close>. The task is then
  cancelled and forgotten, and the listeners are stopped.
\<close>

definition AsyncEventBus_stop :: "bus \<Rightarrow> world \<Rightarrow> (outcome \<times> bus \<times> world) option" where
  "AsyncEventBus_stop b w =
     (if \<not> running b then Some (Returns, b, w)
      else
        let b1 = b\<lparr>running := False, stop_event := True\<rparr>
        in if queue b1 \<noteq> [] \<and> task b1 = None then None
           else
             let w1 = fold (dispatch_event (listeners b1)) (queue b1) w;
                 b2 = b1\<lparr>queue := [], task := None\<rparr>;
                 (r, w2) = stop_listeners (listeners b2) w1
             in Some (r, b2, w2))"

text \<open>
  The tracing step of \<^verbatim>\<open>emit\<close>: the current span is an argument, since it is read from
  the ambient context.
\<close>

definition inject_tracing :: "span \<Rightarrow> event \<Rightarrow> event" where
  "inject_tracing sp e =
     (if is_recording sp
      then (let ctx = get_span_context sp
            in e\<lparr>trace_id := Some (format_zero_padded_hex 32 (uint (ctx_trace_id ctx))),
                 span_id := Some (format_zero_padded_hex 16 (uint (ctx_span_id ctx)))\<rparr>)
      else e)"

text \<open>
  \<^verbatim>\<open>emit\<close> writes on the event it is given, so the event is part of the result. The call
  of the transport is recorded before the transport runs.
\<close>

definition AsyncEventBus_emit ::
  "span \<Rightarrow> network \<Rightarrow> event \<Rightarrow> bus \<Rightarrow> world \<Rightarrow> outcome \<times> event \<times> bus \<times> world" where
  "AsyncEventBus_emit sp net e b w =
     (if \<not> running b then (Returns, e, b, w)
      else
        let e1 = inject_tracing sp e;
            (r, tr1, w1) = send_event net e1 (transport b) (w\<lparr>calls := calls w @ [SendEvent e1]\<rparr>);
            b1 = b\<lparr>transport := tr1\<rparr>
        in case r of
             Returns \<Rightarrow> (Returns, e1, b1\<lparr>queue := queue b1 @ [e1]\<rparr>, w1)
           | Raises x \<Rightarrow>
               (if isinstance_Exception x
                then (Returns, e1, b1\<lparr>queue := queue b1 @ [e1]\<rparr>,
                      w1\<lparr>stdout := stdout w1 @ [TransportSendError x]\<rparr>)
                else (Raises x, e1, b1, w1)))"

subsection \<open>Sequences of calls\<close>

text \<open>
  The events of a list sent one after the other to an HTTP transport; the caller goes on
  after a call that raised. The outcomes of the calls are kept in order.
\<close>

fun send_events ::
  "network \<Rightarrow> event list \<Rightarrow> http_transport \<Rightarrow> world \<Rightarrow> outcome list \<times> http_transport \<times> world" where
  "send_events net [] t w = ([], t, w)"
| "send_events net (e # es) t w =
     (let (r, t1, w1) = HTTPTransport_send_event net e t w;
          (rs, t2, w2) = send_events net es t1 w1
      in (r # rs, t2, w2))"

definition send_events_then_stop ::
  "network \<Rightarrow> event list \<Rightarrow> http_transport \<Rightarrow> world \<Rightarrow> outcome list \<times> http_transport \<times> world" where
  "send_events_then_stop net es t w =
     (let (rs, t1, w1) = send_events net es t w;
          (r, t2, w2) = HTTPTransport_stop net t1 w1
      in (rs @ [r], t2, w2))"

text \<open>A list cut into consecutive pieces of \<open>n\<close> elements, the last one possibly shorter.\<close>

function chunks :: "nat \<Rightarrow> 'a list \<Rightarrow> 'a list list" where
  "chunks n xs = (if n = 0 \<or> xs = [] then [] else take n xs # chunks n (drop n xs))"
  by pat_completeness auto
termination
  by (relation "measure (\<lambda>(n, xs). length xs)") auto

declare chunks.simps [simp del]

subsection \<open>Concrete values\<close>

definition event0 :: "string \<Rightarrow> event" where
  "event0 m =
     \<lparr>ev_timestamp = ''2025-01-01T00:00:00'', ev_type = ''info'', ev_name = None,
      ev_namespace = ''app'', ev_message = m, ev_data = [],
      trace_id = None, span_id = None, ev_context = None\<rparr>"

definition world0 :: world where
  "world0 = \<lparr>posts = [], stdout = [], calls = []\<rparr>"

text \<open>A server that answers 500 to the first request and is unreachable afterwards.\<close>

definition failing_net :: network where
  "failing_net k = (if k = 0 then Response 500 ''Internal Server Error''
                    else PostRaises (Exception ''Cannot connect to host''))"

definition quiet_listener :: listener where
  "quiet_listener =
     \<lparr>lifecycle = True, start_hook = Returns, stop_hook = Returns,
      handle_event = (\<lambda>e. Returns)\<rparr>"

definition raising_listener_start :: listener where
  "raising_listener_start = quiet_listener\<lparr>start_hook := Raises (Exception ''cannot start'')\<rparr>"

definition raising_listener_stop :: listener where
  "raising_listener_stop = quiet_listener\<lparr>stop_hook := Raises (Exception ''cannot stop'')\<rparr>"

definition raising_transport :: transport where
  "raising_transport = OtherTransport (\<lambda>e. Raises (Exception ''sink unavailable''))"

definition recording_span :: span where
  "recording_span =
     \<lparr>is_recording = True,
      get_span_context = \<lparr>ctx_trace_id = 42, ctx_span_id = 255\<rparr>\<rparr>"

text \<open>A bus with the given transport and listeners, registered in the order of the list.\<close>

definition bus_with :: "transport option \<Rightarrow> (string \<times> listener) list \<Rightarrow> bus" where
  "bus_with tr ls = fold (\<lambda>(n, l). add_listener n l) ls (AsyncEventBus_init tr)"

text \<open>The same bus after a call of \<^verbatim>\<open>start\<close>.\<close>

definition started_bus :: "transport option \<Rightarrow> (string \<times> listener) list \<Rightarrow> bus" where
  "started_bus tr ls = fst (snd (AsyncEventBus_start (bus_with tr ls) world0))"

definition http_settings :: "string option \<Rightarrow> logger_settings" where
  "http_settings ep =
     \<lparr>settings_type = ''http'', http_endpoint = ep, http_headers = None,
      settings_batch_size = 100, http_timeout = 5\<rparr>"

text \<open>The names of the lifecycle-aware listeners of a dictionary, in order.\<close>

definition lifecycle_names :: "(string \<times> listener) list \<Rightarrow> string list" where
  "lifecycle_names ls = map fst (filter (\<lambda>(n, l). lifecycle l) ls)"

section \<open>HTTPTransport: flushing and batching\<close>

lemma events_data_id: "events_data b = b"
  unfolding events_data_def by (induction b) simp_all

lemma flush_batch: "batch (fst (snd (HTTPTransport_flush net t w))) = []"
  by (simp add: HTTPTransport_flush_def Let_def split: prod.splits)

lemma flush_posts:
  "posts (snd (snd (HTTPTransport_flush net t w))) =
     posts w @ (if batch t = [] then [] else [(endpoint t, batch t)])"
  by (auto simp add: HTTPTransport_flush_def flush_try_def HTTPTransport_start_def
        events_data_id Let_def
      split: prod.splits post_outcome.splits outcome.splits if_splits)

lemma flush_static:
  "endpoint (fst (snd (HTTPTransport_flush net t w))) = endpoint t"
  "batch_size (fst (snd (HTTPTransport_flush net t w))) = batch_size t"
  by (simp_all add: HTTPTransport_flush_def HTTPTransport_start_def Let_def split: prod.splits)

lemma flush_returns:
  assumes "case net (length (posts w)) of
             Response status body \<Rightarrow> True
           | PostRaises x \<Rightarrow> isinstance_Exception x"
  shows "fst (HTTPTransport_flush net t w) = Returns"
  using assms
  by (auto simp add: HTTPTransport_flush_def flush_try_def Let_def
      split: prod.splits post_outcome.splits outcome.splits if_splits)

lemma send_event_batch:
  "batch (fst (snd (HTTPTransport_send_event net e t w))) =
     (if batch_size t \<le> int (length (batch t)) + 1 then [] else batch t @ [e])"
  by (simp add: HTTPTransport_send_event_def Let_def flush_batch)

lemma send_event_posts:
  "posts (snd (snd (HTTPTransport_send_event net e t w))) =
     posts w @ (if batch_size t \<le> int (length (batch t)) + 1
                then [(endpoint t, batch t @ [e])] else [])"
  by (simp add: HTTPTransport_send_event_def Let_def flush_posts)

lemma send_event_static:
  "endpoint (fst (snd (HTTPTransport_send_event net e t w))) = endpoint t"
  "batch_size (fst (snd (HTTPTransport_send_event net e t w))) = batch_size t"
  by (simp_all add: HTTPTransport_send_event_def Let_def flush_static)

lemma stop_batch: "batch (fst (snd (HTTPTransport_stop net t w))) = []"
  using flush_batch [of net t w]
  by (auto simp add: HTTPTransport_stop_def Let_def split: prod.splits outcome.splits)

lemma stop_posts:
  "posts (snd (snd (HTTPTransport_stop net t w))) =
     posts w @ (if batch t = [] then [] else [(endpoint t, batch t)])"
  using flush_posts [of net t w]
  by (auto simp add: HTTPTransport_stop_def Let_def split: prod.splits outcome.splits)

text \<open>
  C1. Take any HTTP transport, with any batch, and an event whose arrival fills the batch,
  so that \<^verbatim>\<open>send_event\<close> flushes. Whatever the request does, the batch is empty when
  \<^verbatim>\<open>send_event\<close> is left. When the request is answered, with a status of 400 or more as
  with any other, or when it raises an instance of \<^verbatim>\<open>Exception\<close> (a connection failure,
  a timeout), \<^verbatim>\<open>send_event\<close> returns and raises nothing.
\<close>

theorem send_event_failed_flush_contained:
  assumes "batch_size t \<le> int (length (batch t)) + 1"
  shows "batch (fst (snd (HTTPTransport_send_event net e t w))) = [] \<and>
         ((case net (length (posts w)) of
             Response status body \<Rightarrow> True
           | PostRaises x \<Rightarrow> isinstance_Exception x) \<longrightarrow>
          fst (HTTPTransport_send_event net e t w) = Returns)"
  using assms
  by (simp add: send_event_batch) (simp add: HTTPTransport_send_event_def flush_returns)

theorem send_event_failed_flush_contained_witness:
  "batch_size (HTTPTransport_init ''http://h'' None 1 5)
     \<le> int (length (batch (HTTPTransport_init ''http://h'' None 1 5))) + 1 \<and>
   failing_net (length (posts world0)) = Response 500 ''Internal Server Error'' \<and>
   batch (fst (snd (HTTPTransport_send_event failing_net (event0 ''a'')
            (HTTPTransport_init ''http://h'' None 1 5) world0))) = [] \<and>
   fst (HTTPTransport_send_event failing_net (event0 ''a'')
          (HTTPTransport_init ''http://h'' None 1 5) world0) = Returns"
proof -
  have h: "batch_size (HTTPTransport_init ''http://h'' None 1 5)
             \<le> int (length (batch (HTTPTransport_init ''http://h'' None 1 5))) + 1"
    by (simp add: HTTPTransport_init_def)
  have n: "failing_net (length (posts world0)) = Response 500 ''Internal Server Error''"
    by (simp add: failing_net_def world0_def)
  show ?thesis
    using h n send_event_failed_flush_contained [OF h, of failing_net "event0 ''a''" world0]
    by simp
qed

subsection \<open>Batches are the consecutive pieces of the stream of events\<close>

lemma chunks_Nil: "chunks n [] = []"
  by (simp add: chunks.simps)

lemma chunks_short: "xs \<noteq> [] \<Longrightarrow> length xs \<le> n \<Longrightarrow> chunks n xs = [xs]"
  by (subst chunks.simps) (cases n; auto simp add: chunks_Nil)

lemma chunks_full: "0 < n \<Longrightarrow> length xs = n \<Longrightarrow> chunks n (xs @ ys) = xs # chunks n ys"
  by (subst chunks.simps) auto

lemma concat_chunks: "0 < n \<Longrightarrow> concat (chunks n xs) = xs"
proof (induction n xs rule: chunks.induct)
  case (1 n xs)
  show ?case
  proof (cases "xs = []")
    case True
    then show ?thesis by (simp add: chunks_Nil)
  next
    case False
    with 1 have "concat (chunks n (drop n xs)) = drop n xs" by simp
    with False 1(2) show ?thesis by (subst chunks.simps) simp
  qed
qed

text \<open>
  The invariant of a run: the batch is shorter than the effective batch size, and the
  requests made so far followed by the pending batch are the pieces of everything
  buffered so far.
\<close>

lemma send_events_posts:
  assumes "length (batch t) < nat (max 1 (batch_size t))"
  shows "(case send_events net es t w of (rs, t', w') \<Rightarrow>
           posts w' @ (if batch t' = [] then [] else [(endpoint t, batch t')]) =
             posts w @ map (Pair (endpoint t))
               (chunks (nat (max 1 (batch_size t))) (batch t @ es))
           \<and> endpoint t' = endpoint t \<and> batch_size t' = batch_size t)"
  using assms
proof (induction es arbitrary: t w)
  case Nil
  then show ?case by (simp add: chunks_short chunks_Nil)
next
  case (Cons e es)
  let ?k = "nat (max 1 (batch_size t))"
  obtain r t1 w1 where s: "HTTPTransport_send_event net e t w = (r, t1, w1)"
    by (cases "HTTPTransport_send_event net e t w") auto
  have b1: "batch t1 =
      (if batch_size t \<le> int (length (batch t)) + 1 then [] else batch t @ [e])"
    using send_event_batch [of net e t w] s by simp
  have p1: "posts w1 = posts w @
       (if batch_size t \<le> int (length (batch t)) + 1
        then [(endpoint t, batch t @ [e])] else [])"
    using send_event_posts [of net e t w] s by simp
  have st: "endpoint t1 = endpoint t" "batch_size t1 = batch_size t"
    using send_event_static [of net e t w] s by simp_all
  show ?case
  proof (cases "batch_size t \<le> int (length (batch t)) + 1")
    case True
    with Cons.prems have len: "length (batch t @ [e]) = ?k" by auto
    have k: "0 < ?k" by simp
    have inv: "length (batch t1) < nat (max 1 (batch_size t1))" using b1 True st by simp
    have ch: "chunks ?k (batch t @ e # es) = (batch t @ [e]) # chunks ?k es"
      using chunks_full [OF k len, of es] by simp
    from Cons.IH [OF inv, where w = w1] show ?thesis
      using s b1 p1 st True ch by (auto split: prod.splits if_splits)
  next
    case False
    then have inv: "length (batch t1) < nat (max 1 (batch_size t1))" using b1 st by auto
    from Cons.IH [OF inv, where w = w1] show ?thesis
      using s b1 p1 st False by (auto split: prod.splits if_splits)
  qed
qed

lemma send_events_then_stop_posts:
  assumes "batch t = []"
  shows "(case send_events_then_stop net es t w of (rs, t', w') \<Rightarrow>
           posts w' = posts w @ map (Pair (endpoint t))
                        (chunks (nat (max 1 (batch_size t))) es)
           \<and> batch t' = [])"
proof -
  obtain rs t1 w1 where s: "send_events net es t w = (rs, t1, w1)"
    by (cases "send_events net es t w") auto
  have inv: "length (batch t) < nat (max 1 (batch_size t))" using assms by simp
  have p: "posts w1 @ (if batch t1 = [] then [] else [(endpoint t, batch t1)]) =
             posts w @ map (Pair (endpoint t)) (chunks (nat (max 1 (batch_size t))) es)"
    and ep: "endpoint t1 = endpoint t"
    using send_events_posts [OF inv, where net = net and es = es and w = w] s assms
    by simp_all
  show ?thesis
    using s p ep stop_posts [of net t1 w1] stop_batch [of net t1 w1]
    by (auto simp add: send_events_then_stop_def split: prod.splits if_splits)
qed

text \<open>
  C2. (1) A call of \<^verbatim>\<open>send_event\<close> makes a request exactly when the batch, with the new
  event appended, is at least \<^verbatim>\<open>batch_size\<close> long; (2) the batch is emptied exactly
  then, and otherwise keeps every event it had and the new one; (3) \<^verbatim>\<open>stop\<close> makes one
  request with what is left when something is left, and none otherwise; (4) for a
  transport as its constructor makes it, events \<open>es\<close> sent one after the other and then
  \<^verbatim>\<open>stop\<close>: the requests made are the consecutive pieces of \<open>es\<close> of length
  \<^verbatim>\<open>batch_size\<close> (of length one when \<^verbatim>\<open>batch_size\<close> is below one), the remainder
  last, so the payloads put end to end are \<open>es\<close>: each event is in exactly one payload,
  in the order of sending. Nothing is assumed of the remote end: a request counts as
  made when it is attempted.
\<close>

theorem send_events_then_stop_batches:
  "(length (posts (snd (snd (HTTPTransport_send_event net e t w)))) = Suc (length (posts w)))
      = (batch_size t \<le> int (length (batch t @ [e])))
   \<and> batch (fst (snd (HTTPTransport_send_event net e t w))) =
       (if batch_size t \<le> int (length (batch t @ [e])) then [] else batch t @ [e])
   \<and> posts (snd (snd (HTTPTransport_stop net t w))) =
       posts w @ (if batch t = [] then [] else [(endpoint t, events_data (batch t))])
   \<and> (case send_events_then_stop net es (HTTPTransport_init ep hs bs tmo) w of
         (rs, t', w') \<Rightarrow>
           posts w' = posts w @ map (Pair ep) (chunks (nat (max 1 bs)) (events_data es))
           \<and> concat (map snd (drop (length (posts w)) (posts w'))) = es
           \<and> batch t' = [])"
proof -
  have i: "batch (HTTPTransport_init ep hs bs tmo) = []"
    "endpoint (HTTPTransport_init ep hs bs tmo) = ep"
    "batch_size (HTTPTransport_init ep hs bs tmo) = bs"
    by (simp_all add: HTTPTransport_init_def)
  have k: "0 < nat (max 1 bs)" by simp
  have sndpair: "map (snd \<circ> Pair ep) xss = xss" for xss :: "event list list"
    by (induction xss) simp_all
  have run: "(case send_events_then_stop net es (HTTPTransport_init ep hs bs tmo) w of
        (rs, t', w') \<Rightarrow>
          posts w' = posts w @ map (Pair ep) (chunks (nat (max 1 bs)) (events_data es))
          \<and> concat (map snd (drop (length (posts w)) (posts w'))) = es
          \<and> batch t' = [])"
    using send_events_then_stop_posts [OF i(1), where net = net and es = es and w = w] i(2,3)
    by (auto simp add: events_data_id sndpair concat_chunks [OF k] split: prod.splits)
  show ?thesis
    using run by (simp add: send_event_posts send_event_batch stop_posts events_data_id)
qed

theorem send_events_then_stop_batches_witness:
  "posts (snd (snd (send_events_then_stop failing_net
       [event0 ''a'', event0 ''b'', event0 ''c'']
       (HTTPTransport_init ''http://h'' None 2 5) world0))) =
     [(''http://h'', [event0 ''a'', event0 ''b'']), (''http://h'', [event0 ''c''])]"
  using send_events_then_stop_batches [where net = failing_net and e = "event0 ''a''"
      and t = "HTTPTransport_init ''http://h'' None 2 5" and w = world0
      and es = "[event0 ''a'', event0 ''b'', event0 ''c'']" and ep = "''http://h''"
      and hs = None and bs = 2 and tmo = 5]
  by (simp add: world0_def chunks.simps events_data_id split: prod.splits)

text \<open>
  C6, as stated, fails for a negative \<^verbatim>\<open>batch_size\<close>, which the constructor accepts:
  every call flushes, and the empty batch it leaves is longer than \<^verbatim>\<open>batch_size\<close>.
\<close>

theorem negative_batch_size_buffer_exceeds:
  "\<not> int (length (batch (fst (snd (HTTPTransport_send_event failing_net (event0 ''a'')
            (HTTPTransport_init ''http://h'' None (- 1) 5) world0)))))
      \<le> batch_size (fst (snd (HTTPTransport_send_event failing_net (event0 ''a'')
            (HTTPTransport_init ''http://h'' None (- 1) 5) world0)))"
  by (simp add: send_event_batch send_event_static HTTPTransport_init_def)

text \<open>
  C6, amended. For a transport whose \<^verbatim>\<open>batch_size\<close> is not negative, in any state,
  and any non-empty sequence of \<^verbatim>\<open>send_event\<close> calls: after the last call
  \<^verbatim>\<open>batch_size\<close> is what it was and the batch is at most \<^verbatim>\<open>batch_size\<close> long. Every
  call of a sequence is the last call of a shorter one, so this holds after every call.
\<close>

theorem send_events_buffer_bounded:
  assumes "es \<noteq> []" "0 \<le> batch_size t"
  shows "(case send_events net es t w of (rs, t', w') \<Rightarrow>
            batch_size t' = batch_size t \<and> int (length (batch t')) \<le> batch_size t')"
  using assms
proof (induction es arbitrary: t w)
  case Nil
  then show ?case by simp
next
  case (Cons e es)
  obtain r t1 w1 where s: "HTTPTransport_send_event net e t w = (r, t1, w1)"
    by (cases "HTTPTransport_send_event net e t w") auto
  have b1: "batch t1 =
      (if batch_size t \<le> int (length (batch t)) + 1 then [] else batch t @ [e])"
    using send_event_batch [of net e t w] s by simp
  have st: "batch_size t1 = batch_size t"
    using send_event_static [of net e t w] s by simp
  show ?case
  proof (cases "es = []")
    case True
    then show ?thesis using s b1 st Cons.prems by (auto split: if_splits)
  next
    case False
    from Cons.IH [OF False, where t = t1 and w = w1] Cons.prems st s show ?thesis
      by (auto split: prod.splits)
  qed
qed

theorem send_events_buffer_bounded_witness:
  "[event0 ''a'', event0 ''b'', event0 ''c''] \<noteq> [] \<and>
   0 \<le> batch_size (HTTPTransport_init ''http://h'' None 2 5) \<and>
   int (length (batch (fst (snd (send_events failing_net
          [event0 ''a'', event0 ''b'', event0 ''c'']
          (HTTPTransport_init ''http://h'' None 2 5) world0))))) \<le> 2"
proof -
  have h1: "[event0 ''a'', event0 ''b'', event0 ''c''] \<noteq> []" by simp
  have h2: "0 \<le> batch_size (HTTPTransport_init ''http://h'' None 2 5)"
    by (simp add: HTTPTransport_init_def)
  show ?thesis
    using h1 h2 send_events_buffer_bounded [OF h1 h2, where net = failing_net and w = world0]
    by (simp add: HTTPTransport_init_def split: prod.splits)
qed

section \<open>AsyncEventBus: starting and stopping\<close>

lemma start_listeners_prefix:
  assumes "\<forall>(n, l) \<in> set pre. lifecycle l \<longrightarrow> start_hook l = Returns"
  shows "start_listeners (pre @ rest) w =
           start_listeners rest (w\<lparr>calls := calls w @ map StartHook (lifecycle_names pre)\<rparr>)"
  using assms
proof (induction pre arbitrary: w)
  case Nil
  then show ?case by (simp add: lifecycle_names_def)
next
  case (Cons p pre)
  obtain n l where p: "p = (n, l)" by (cases p)
  from Cons.prems p have ok: "lifecycle l \<longrightarrow> start_hook l = Returns"
    and rest: "\<forall>(n, l) \<in> set pre. lifecycle l \<longrightarrow> start_hook l = Returns"
    by auto
  show ?case
    using Cons.IH [OF rest] ok p by (simp add: lifecycle_names_def)
qed

lemma stop_listeners_prefix:
  assumes "\<forall>(n, l) \<in> set pre. lifecycle l \<longrightarrow> stop_hook l = Returns"
  shows "stop_listeners (pre @ rest) w =
           stop_listeners rest (w\<lparr>calls := calls w @ map StopHook (lifecycle_names pre)\<rparr>)"
  using assms
proof (induction pre arbitrary: w)
  case Nil
  then show ?case by (simp add: lifecycle_names_def)
next
  case (Cons p pre)
  obtain n l where p: "p = (n, l)" by (cases p)
  from Cons.prems p have ok: "lifecycle l \<longrightarrow> stop_hook l = Returns"
    and rest: "\<forall>(n, l) \<in> set pre. lifecycle l \<longrightarrow> stop_hook l = Returns"
    by auto
  show ?case
    using Cons.IH [OF rest] ok p by (simp add: lifecycle_names_def)
qed

lemma bus3:
  "bus_with tr [(''first'', l1), (''second'', l2), (''third'', l3)] =
     \<lparr>transport = (case tr of None \<Rightarrow> NoOpTransport | Some t \<Rightarrow> t),
      listeners = [(''first'', l1), (''second'', l2), (''third'', l3)],
      queue = [], task = None, running = False, stop_event = False\<rparr>"
  by (simp add: bus_with_def add_listener_def AsyncEventBus_init_def)

lemma started3:
  "started_bus tr [(''first'', quiet_listener), (''second'', raising_listener_stop),
       (''third'', quiet_listener)] =
     \<lparr>transport = (case tr of None \<Rightarrow> NoOpTransport | Some t \<Rightarrow> t),
      listeners = [(''first'', quiet_listener), (''second'', raising_listener_stop),
         (''third'', quiet_listener)],
      queue = [], task = Some ProcessEvents, running = True, stop_event = False\<rparr>"
  by (simp add: started_bus_def bus3 AsyncEventBus_start_def quiet_listener_def
      raising_listener_stop_def)

lemma started0:
  "started_bus tr [] =
     \<lparr>transport = (case tr of None \<Rightarrow> NoOpTransport | Some t \<Rightarrow> t),
      listeners = [], queue = [], task = Some ProcessEvents, running = True,
      stop_event = False\<rparr>"
  by (simp add: started_bus_def bus_with_def AsyncEventBus_init_def AsyncEventBus_start_def)

text \<open>
  C9. The bus is not running, and among its listeners, in registration order, \<open>l\<close>
  is the first lifecycle-aware one whose \<^verbatim>\<open>start\<close> raises. Then \<^verbatim>\<open>start\<close> of the bus
  raises the same exception and leaves the bus as it was: not running, with the task
  handle and the stop signal it had. The hooks called are those of the lifecycle-aware
  listeners before \<open>l\<close> and the one of \<open>l\<close>, in order, and no other.
\<close>

theorem start_failure_leaves_bus_stopped:
  assumes "\<not> running b"
    and "listeners b = pre @ (n, l) # post"
    and "\<forall>(n', l') \<in> set pre. lifecycle l' \<longrightarrow> start_hook l' = Returns"
    and "lifecycle l" and "start_hook l = Raises x"
  shows "AsyncEventBus_start b w =
           (Raises x, b, w\<lparr>calls := calls w @ map StartHook (lifecycle_names pre) @ [StartHook n]\<rparr>)"
  using assms(1,2,4,5) start_listeners_prefix [OF assms(3), of "(n, l) # post" w]
  by (simp add: AsyncEventBus_start_def)

theorem start_failure_leaves_bus_stopped_witness:
  "\<not> running (bus_with None [(''first'', quiet_listener), (''second'', raising_listener_start),
       (''third'', quiet_listener)]) \<and>
   AsyncEventBus_start (bus_with None [(''first'', quiet_listener),
       (''second'', raising_listener_start), (''third'', quiet_listener)]) world0 =
     (Raises (Exception ''cannot start''),
      bus_with None [(''first'', quiet_listener), (''second'', raising_listener_start),
       (''third'', quiet_listener)],
      world0\<lparr>calls := [StartHook ''first'', StartHook ''second'']\<rparr>)"
proof -
  let ?b = "bus_with None [(''first'', quiet_listener), (''second'', raising_listener_start),
       (''third'', quiet_listener)]"
  have h1: "\<not> running ?b" by (simp add: bus3)
  have h2: "listeners ?b = [(''first'', quiet_listener)] @
       (''second'', raising_listener_start) # [(''third'', quiet_listener)]"
    by (simp add: bus3)
  have h3: "\<forall>(n', l') \<in> set [(''first'', quiet_listener)]. lifecycle l' \<longrightarrow> start_hook l' = Returns"
    by (simp add: quiet_listener_def)
  have h4: "lifecycle raising_listener_start"
    by (simp add: raising_listener_start_def quiet_listener_def)
  have h5: "start_hook raising_listener_start = Raises (Exception ''cannot start'')"
    by (simp add: raising_listener_start_def)
  have ln: "lifecycle_names [(''first'', quiet_listener)] = [''first'']"
    by (simp add: lifecycle_names_def quiet_listener_def)
  show ?thesis
    using h1 start_failure_leaves_bus_stopped [OF h1 h2 h3 h4 h5, of world0]
    by (simp add: ln world0_def)
qed

text \<open>
  C3, as stated, fails: with three lifecycle-aware listeners of which the second raises
  in \<^verbatim>\<open>stop\<close>, \<^verbatim>\<open>stop\<close> of the running bus returns a result, and the hook of the
  third listener is not among the calls made.
\<close>

theorem stop_hook_failure_skips_later_listeners:
  "lifecycle quiet_listener \<and>
   map_of (listeners (started_bus None [(''first'', quiet_listener),
       (''second'', raising_listener_stop), (''third'', quiet_listener)])) ''third''
     = Some quiet_listener \<and>
   AsyncEventBus_stop (started_bus None [(''first'', quiet_listener),
       (''second'', raising_listener_stop), (''third'', quiet_listener)]) world0 \<noteq> None \<and>
   StopHook ''third'' \<notin> set (calls (snd (snd (the (AsyncEventBus_stop
       (started_bus None [(''first'', quiet_listener),
          (''second'', raising_listener_stop), (''third'', quiet_listener)]) world0)))))"
  unfolding started3
  by (simp add: AsyncEventBus_stop_def Let_def quiet_listener_def
      raising_listener_stop_def world0_def)

text \<open>
  C3, amended. The bus is running (with a task, or with nothing queued), and \<open>l\<close> is the
  first lifecycle-aware listener, in registration order, whose \<^verbatim>\<open>stop\<close> raises. Then
  \<^verbatim>\<open>stop\<close> of the bus raises the same exception; the bus is left not running, its stop
  signal set, its queue handed to the listeners and empty, its task forgotten; the
  \<^verbatim>\<open>stop\<close> hooks called are those of the lifecycle-aware listeners before \<open>l\<close> and
  the one of \<open>l\<close>, in order, and none of a listener after \<open>l\<close>.
\<close>

theorem stop_ends_at_first_failing_hook:
  assumes "running b"
    and "queue b = [] \<or> task b \<noteq> None"
    and "listeners b = pre @ (n, l) # post"
    and "\<forall>(n', l') \<in> set pre. lifecycle l' \<longrightarrow> stop_hook l' = Returns"
    and "lifecycle l" and "stop_hook l = Raises x"
  shows "AsyncEventBus_stop b w =
           Some (Raises x,
                 b\<lparr>running := False, stop_event := True, queue := [], task := None\<rparr>,
                 (fold (dispatch_event (listeners b)) (queue b) w)
                   \<lparr>calls := calls (fold (dispatch_event (listeners b)) (queue b) w)
                              @ map StopHook (lifecycle_names pre) @ [StopHook n]\<rparr>)"
  using assms(1,2,3,5,6)
    stop_listeners_prefix [OF assms(4), of "(n, l) # post"
      "fold (dispatch_event (listeners b)) (queue b) w"]
  by (auto simp add: AsyncEventBus_stop_def Let_def)

theorem stop_ends_at_first_failing_hook_witness:
  "running (started_bus None [(''first'', quiet_listener),
       (''second'', raising_listener_stop), (''third'', quiet_listener)]) \<and>
   map_option (\<lambda>(r, b, w). (r, running b, task b, calls w))
     (AsyncEventBus_stop (started_bus None [(''first'', quiet_listener),
       (''second'', raising_listener_stop), (''third'', quiet_listener)]) world0) =
     Some (Raises (Exception ''cannot stop''), False, None,
           [StopHook ''first'', StopHook ''second''])"
proof -
  let ?b = "started_bus None [(''first'', quiet_listener),
       (''second'', raising_listener_stop), (''third'', quiet_listener)]"
  have h1: "running ?b" by (simp add: started3)
  have h2: "queue ?b = [] \<or> task ?b \<noteq> None" by (simp add: started3)
  have h3: "listeners ?b = [(''first'', quiet_listener)] @
       (''second'', raising_listener_stop) # [(''third'', quiet_listener)]"
    by (simp add: started3)
  have h4: "\<forall>(n', l') \<in> set [(''first'', quiet_listener)]. lifecycle l' \<longrightarrow> stop_hook l' = Returns"
    by (simp add: quiet_listener_def)
  have h5: "lifecycle raising_listener_stop"
    by (simp add: raising_listener_stop_def quiet_listener_def)
  have h6: "stop_hook raising_listener_stop = Raises (Exception ''cannot stop'')"
    by (simp add: raising_listener_stop_def)
  have q: "queue ?b = []" by (simp add: started3)
  have ln: "lifecycle_names [(''first'', quiet_listener)] = [''first'']"
    by (simp add: lifecycle_names_def quiet_listener_def)
  show ?thesis
    using h1 stop_ends_at_first_failing_hook [OF h1 h2 h3 h4 h5 h6, of world0]
    by (simp add: q ln world0_def)
qed

section \<open>AsyncEventBus: emit\<close>

text \<open>
  C4. On a bus that is not running \<^verbatim>\<open>emit\<close> returns without an exception and
  changes nothing: the event, the bus with its queue and its transport, and the world
  (no call of \<^verbatim>\<open>send_event\<close>, no request, no output) are what they were. The queue
  being the only way to a listener, no listener receives the event.
\<close>

theorem emit_not_running_noop: "\<not> running b \<Longrightarrow> AsyncEventBus_emit sp net e b w = (Returns, e, b, w)"
  by (simp add: AsyncEventBus_emit_def)

theorem emit_not_running_noop_witness:
  "\<not> running (bus_with (Some raising_transport) []) \<and>
   AsyncEventBus_emit recording_span failing_net (event0 ''a'')
       (bus_with (Some raising_transport) []) world0 =
     (Returns, event0 ''a'', bus_with (Some raising_transport) [], world0)"
proof -
  have h: "\<not> running (bus_with (Some raising_transport) [])"
    by (simp add: bus_with_def AsyncEventBus_init_def)
  show ?thesis
    using h emit_not_running_noop [OF h, of recording_span failing_net "event0 ''a''" world0] by simp
qed

text \<open>
  C5. On a running bus, when \<^verbatim>\<open>send_event\<close> of the transport raises an instance of
  \<^verbatim>\<open>Exception\<close> on the (traced) event, \<^verbatim>\<open>emit\<close> returns without an exception, the
  error is printed, and the event is the last element of the queue.
\<close>

theorem emit_contains_transport_exception:
  assumes "running b"
    and "send_event net (inject_tracing sp e) (transport b)
           (w\<lparr>calls := calls w @ [SendEvent (inject_tracing sp e)]\<rparr>) = (Raises x, tr1, w1)"
    and "isinstance_Exception x"
  shows "AsyncEventBus_emit sp net e b w =
           (Returns, inject_tracing sp e,
            b\<lparr>transport := tr1, queue := queue b @ [inject_tracing sp e]\<rparr>,
            w1\<lparr>stdout := stdout w1 @ [TransportSendError x]\<rparr>)"
  using assms by (simp add: AsyncEventBus_emit_def Let_def)

theorem emit_contains_transport_exception_witness:
  "running (started_bus (Some raising_transport) []) \<and>
   isinstance_Exception (Exception ''sink unavailable'') \<and>
   fst (AsyncEventBus_emit recording_span failing_net (event0 ''a'')
          (started_bus (Some raising_transport) []) world0) = Returns \<and>
   queue (fst (snd (snd (AsyncEventBus_emit recording_span failing_net (event0 ''a'')
          (started_bus (Some raising_transport) []) world0)))) =
     [inject_tracing recording_span (event0 ''a'')] \<and>
   stdout (snd (snd (snd (AsyncEventBus_emit recording_span failing_net (event0 ''a'')
          (started_bus (Some raising_transport) []) world0)))) =
     [TransportSendError (Exception ''sink unavailable'')]"
proof -
  let ?b = "started_bus (Some raising_transport) []"
  let ?e = "inject_tracing recording_span (event0 ''a'')"
  have h1: "running ?b" by (simp add: started0)
  have h2: "send_event failing_net ?e (transport ?b)
              (world0\<lparr>calls := calls world0 @ [SendEvent ?e]\<rparr>) =
            (Raises (Exception ''sink unavailable''), raising_transport,
             world0\<lparr>calls := calls world0 @ [SendEvent ?e]\<rparr>)"
    by (simp add: started0 raising_transport_def)
  have h3: "isinstance_Exception (Exception ''sink unavailable'')" by simp
  show ?thesis
    using h1 h3 emit_contains_transport_exception [OF h1 h2 h3]
    by (simp add: started0 world0_def)
qed

subsection \<open>Trace and span identifiers\<close>

lemma upt_16: "[0..<16] = [0, 1, 2, 3, 4, 5, 6, 7, 8, 9, 10, 11, 12, 13, 14, 15::nat]"
  by code_simp

lemma below_16_cases:
  assumes "d < (16::nat)"
  shows "d \<in> {0, 1, 2, 3, 4, 5, 6, 7, 8, 9, 10, 11, 12, 13, 14, 15}"
proof -
  from assms have "d \<in> set [0..<16]" by simp
  then show ?thesis by (simp only: upt_16) simp
qed

lemma hex_digit_in: "d < 16 \<Longrightarrow> hex_digit d \<in> set ''0123456789abcdef''"
  using below_16_cases [of d] by (auto simp add: hex_digit_def)

lemma hex_digit_value_digit: "d < 16 \<Longrightarrow> hex_digit_value (hex_digit d) = d"
  using below_16_cases [of d] by (auto simp add: hex_digit_def hex_digit_value_def)

lemma hex_digits_set: "set (hex_digits n) \<subseteq> set ''0123456789abcdef''"
proof (induction n rule: hex_digits.induct)
  case (1 n)
  show ?case
  proof (cases "n < 16")
    case True
    then show ?thesis using hex_digit_in [of n] by (subst hex_digits.simps) simp
  next
    case False
    have "n mod 16 < 16" by simp
    then have "hex_digit (n mod 16) \<in> set ''0123456789abcdef''" by (rule hex_digit_in)
    with 1 False show ?thesis by (subst hex_digits.simps) simp
  qed
qed

lemma hex_digits_length: "0 < k \<Longrightarrow> n < 16 ^ k \<Longrightarrow> length (hex_digits n) \<le> k"
proof (induction n arbitrary: k rule: hex_digits.induct)
  case (1 n)
  show ?case
  proof (cases "n < 16")
    case True
    with 1(2) show ?thesis by (subst hex_digits.simps) simp
  next
    case False
    from 1(2) obtain j where k: "k = Suc j" by (cases k) auto
    from False 1(3) k have j: "0 < j" by (cases j) auto
    from 1(3) k have "n div 16 < 16 ^ j"
      by (simp add: less_mult_imp_div_less mult.commute)
    from 1(1) [OF False j this] False k show ?thesis by (subst hex_digits.simps) simp
  qed
qed

lemma hex_value_snoc: "hex_value (s @ [c]) = 16 * hex_value s + hex_digit_value c"
  by (simp add: hex_value_def)

lemma hex_value_digits: "hex_value (hex_digits n) = n"
proof (induction n rule: hex_digits.induct)
  case (1 n)
  show ?case
  proof (cases "n < 16")
    case True
    then show ?thesis
      by (subst hex_digits.simps) (simp add: hex_value_def hex_digit_value_digit)
  next
    case False
    have "hex_digit_value (hex_digit (n mod 16)) = n mod 16"
      by (rule hex_digit_value_digit) simp
    with 1 False show ?thesis
      by (subst hex_digits.simps) (simp add: hex_value_snoc)
  qed
qed

lemma hex_value_zeros: "hex_value (replicate k (CHR ''0'') @ s) = hex_value s"
proof -
  have "foldl (\<lambda>a c. 16 * a + hex_digit_value c) 0 (replicate k (CHR ''0'')) = 0"
    by (induction k) (simp_all add: hex_digit_value_def)
  then show ?thesis by (simp add: hex_value_def)
qed

lemma format_zero_padded_hex_nat:
  assumes "0 < k" "n < 16 ^ k"
  shows "length (format_zero_padded_hex k (int n)) = k"
    and "set (format_zero_padded_hex k (int n)) \<subseteq> set ''0123456789abcdef''"
    and "hex_value (format_zero_padded_hex k (int n)) = n"
proof -
  have f: "format_zero_padded_hex k (int n) =
             replicate (k - length (hex_digits n)) (CHR ''0'') @ hex_digits n"
    by (simp add: format_zero_padded_hex_def Let_def)
  from hex_digits_length [OF assms] show "length (format_zero_padded_hex k (int n)) = k"
    by (simp add: f)
  from hex_digits_set [of n]
  show "set (format_zero_padded_hex k (int n)) \<subseteq> set ''0123456789abcdef''"
    by (auto simp add: f)
  show "hex_value (format_zero_padded_hex k (int n)) = n"
    by (simp only: f hex_value_zeros hex_value_digits)
qed

lemma trace_id_format:
  fixes tid :: "128 word"
  shows "length (format_zero_padded_hex 32 (uint tid)) = 32"
    and "set (format_zero_padded_hex 32 (uint tid)) \<subseteq> set ''0123456789abcdef''"
    and "hex_value (format_zero_padded_hex 32 (uint tid)) = unat tid"
proof -
  have "unat tid < 2 ^ LENGTH(128)" by (rule unsigned_less)
  then have b: "unat tid < 16 ^ 32" by simp
  have u: "uint tid = int (unat tid)" by simp
  show "length (format_zero_padded_hex 32 (uint tid)) = 32"
    unfolding u by (rule format_zero_padded_hex_nat(1) [OF _ b]) simp
  show "set (format_zero_padded_hex 32 (uint tid)) \<subseteq> set ''0123456789abcdef''"
    unfolding u by (rule format_zero_padded_hex_nat(2) [OF _ b]) simp
  show "hex_value (format_zero_padded_hex 32 (uint tid)) = unat tid"
    unfolding u by (rule format_zero_padded_hex_nat(3) [OF _ b]) simp
qed

lemma span_id_format:
  fixes sid :: "64 word"
  shows "length (format_zero_padded_hex 16 (uint sid)) = 16"
    and "set (format_zero_padded_hex 16 (uint sid)) \<subseteq> set ''0123456789abcdef''"
    and "hex_value (format_zero_padded_hex 16 (uint sid)) = unat sid"
proof -
  have "unat sid < 2 ^ LENGTH(64)" by (rule unsigned_less)
  then have b: "unat sid < 16 ^ 16" by simp
  have u: "uint sid = int (unat sid)" by simp
  show "length (format_zero_padded_hex 16 (uint sid)) = 16"
    unfolding u by (rule format_zero_padded_hex_nat(1) [OF _ b]) simp
  show "set (format_zero_padded_hex 16 (uint sid)) \<subseteq> set ''0123456789abcdef''"
    unfolding u by (rule format_zero_padded_hex_nat(2) [OF _ b]) simp
  show "hex_value (format_zero_padded_hex 16 (uint sid)) = unat sid"
    unfolding u by (rule format_zero_padded_hex_nat(3) [OF _ b]) simp
qed

lemma emit_event:
  "running b \<Longrightarrow> fst (snd (AsyncEventBus_emit sp net e b w)) = inject_tracing sp e"
  by (simp add: AsyncEventBus_emit_def Let_def split: prod.splits outcome.splits)

lemma emit_queue:
  "running b \<Longrightarrow> fst (AsyncEventBus_emit sp net e b w) = Returns \<Longrightarrow>
     queue (fst (snd (snd (AsyncEventBus_emit sp net e b w)))) = queue b @ [inject_tracing sp e]"
  by (auto simp add: AsyncEventBus_emit_def Let_def split: prod.splits outcome.splits if_splits)

lemma format_42: "format_zero_padded_hex 32 42 = ''0000000000000000000000000000002a''"
  by code_simp

lemma format_255: "format_zero_padded_hex 16 255 = ''00000000000000ff''"
  by code_simp

text \<open>
  C8. On a running bus: when the current span is recording, the event after
  \<^verbatim>\<open>emit\<close> is the event given with \<^verbatim>\<open>trace_id\<close> and \<^verbatim>\<open>span_id\<close> set to
  strings of exactly 32 and exactly 16 characters, all of them lowercase hexadecimal
  digits, which denote the trace id and the span id of the span context; when it is not
  recording, the event is unchanged, so fields that were unset stay unset. When
  \<^verbatim>\<open>emit\<close> returns, that event is the last element of the queue.
\<close>

theorem emit_injects_tracing:
  assumes "running b"
  shows "(case AsyncEventBus_emit sp net e b w of (r, e', b', w') \<Rightarrow>
      (if is_recording sp
       then (\<exists>t s. e' = e\<lparr>trace_id := Some t, span_id := Some s\<rparr>
               \<and> length t = 32 \<and> set t \<subseteq> set ''0123456789abcdef''
               \<and> hex_value t = unat (ctx_trace_id (get_span_context sp))
               \<and> length s = 16 \<and> set s \<subseteq> set ''0123456789abcdef''
               \<and> hex_value s = unat (ctx_span_id (get_span_context sp)))
       else e' = e)
      \<and> (r = Returns \<longrightarrow> queue b' = queue b @ [e']))"
proof -
  obtain r e' b' w' where em: "AsyncEventBus_emit sp net e b w = (r, e', b', w')"
    by (cases "AsyncEventBus_emit sp net e b w") auto
  have e': "e' = inject_tracing sp e"
    using emit_event [OF assms, where sp = sp and net = net and e = e and w = w] em by simp
  have q: "r = Returns \<longrightarrow> queue b' = queue b @ [e']"
    using emit_queue [OF assms, where sp = sp and net = net and e = e and w = w] em e'
    by simp
  show ?thesis
  proof (cases "is_recording sp")
    case True
    then have "e' = e\<lparr>trace_id := Some (format_zero_padded_hex 32
                         (uint (ctx_trace_id (get_span_context sp)))),
                     span_id := Some (format_zero_padded_hex 16
                         (uint (ctx_span_id (get_span_context sp))))\<rparr>"
      using e' by (simp add: inject_tracing_def Let_def)
    with True q show ?thesis
      unfolding em
      using trace_id_format [of "ctx_trace_id (get_span_context sp)"]
        span_id_format [of "ctx_span_id (get_span_context sp)"]
      by (simp del: set_simps) blast
  next
    case False
    then have "e' = e" using e' by (simp add: inject_tracing_def)
    with False q show ?thesis unfolding em by simp
  qed
qed

theorem emit_injects_tracing_witness:
  "running (started_bus None []) \<and> is_recording recording_span \<and>
   fst (snd (AsyncEventBus_emit recording_span failing_net (event0 ''a'')
        (started_bus None []) world0)) =
     (event0 ''a'')\<lparr>trace_id := Some ''0000000000000000000000000000002a'',
                     span_id := Some ''00000000000000ff''\<rparr> \<and>
   queue (fst (snd (snd (AsyncEventBus_emit recording_span failing_net (event0 ''a'')
        (started_bus None []) world0)))) =
     [(event0 ''a'')\<lparr>trace_id := Some ''0000000000000000000000000000002a'',
                     span_id := Some ''00000000000000ff''\<rparr>]"
proof -
  have h: "running (started_bus None [])" by (simp add: started0)
  have r: "is_recording recording_span" by (simp add: recording_span_def)
  have i: "inject_tracing recording_span (event0 ''a'') =
      (event0 ''a'')\<lparr>trace_id := Some ''0000000000000000000000000000002a'',
                      span_id := Some ''00000000000000ff''\<rparr>"
    by (simp add: inject_tracing_def recording_span_def format_42 format_255)
  have ret: "fst (AsyncEventBus_emit recording_span failing_net (event0 ''a'')
        (started_bus None []) world0) = Returns"
    by (simp add: AsyncEventBus_emit_def started0 NoOpTransport_send_event_def Let_def)
  have q: "queue (started_bus None []) = []" by (simp add: started0)
  show ?thesis
    using h r emit_injects_tracing [OF h, where sp = recording_span and net = failing_net
          and e = "event0 ''a''" and w = world0]
      emit_event [OF h, where sp = recording_span and net = failing_net
          and e = "event0 ''a''" and w = world0]
      emit_queue [OF h ret]
    by (simp add: i q)
qed

section \<open>The singleton and the factory\<close>

text \<open>
  C10. With an instance \<open>b\<close> in place, \<^verbatim>\<open>get\<close> without a transport returns \<open>b\<close>
  and keeps it as the instance; \<^verbatim>\<open>get\<close> with a transport \<open>t\<close> returns, and keeps as
  the instance, \<open>b\<close> with the transport replaced by \<open>t\<close>: listeners, queue, task,
  running flag and stop signal are those of \<open>b\<close>.
\<close>

theorem get_existing_instance:
  "AsyncEventBus_get (Some b) None = (Some b, b) \<and>
   AsyncEventBus_get (Some b) (Some t) = (Some (b\<lparr>transport := t\<rparr>), b\<lparr>transport := t\<rparr>) \<and>
   transport (b\<lparr>transport := t\<rparr>) = t \<and>
   listeners (b\<lparr>transport := t\<rparr>) = listeners b \<and> queue (b\<lparr>transport := t\<rparr>) = queue b \<and>
   task (b\<lparr>transport := t\<rparr>) = task b \<and> running (b\<lparr>transport := t\<rparr>) = running b \<and>
   stop_event (b\<lparr>transport := t\<rparr>) = stop_event b"
  by (simp add: AsyncEventBus_get_def Let_def)

theorem get_existing_instance_witness:
  "AsyncEventBus_get (Some (started_bus None [])) None =
     (Some (started_bus None []), started_bus None []) \<and>
   snd (AsyncEventBus_get (Some (started_bus None [])) (Some ConsoleTransport)) =
     \<lparr>transport = ConsoleTransport, listeners = [], queue = [],
      task = Some ProcessEvents, running = True, stop_event = False\<rparr>"
  using get_existing_instance [of "started_bus None []" ConsoleTransport]
  by (simp add: started0)

text \<open>
  C7, as stated, fails: with the discriminant \<^verbatim>\<open>http\<close> and the empty string as
  endpoint, an endpoint is set and the discriminant is a known one, and
  \<^verbatim>\<open>create_transport\<close> raises.
\<close>

theorem empty_endpoint_raises:
  "\<not> (isl (create_transport (http_settings (Some []))) \<longleftrightarrow>
        (settings_type (http_settings (Some [])) = ''http''
           \<and> http_endpoint (http_settings (Some [])) = None)
        \<or> settings_type (http_settings (Some [])) \<notin> {''none'', ''console'', ''http''})"
  by (simp add: create_transport_def http_settings_def)

text \<open>
  C7, amended. \<^verbatim>\<open>create_transport\<close> raises exactly when the discriminant is
  \<^verbatim>\<open>http\<close> with the endpoint absent or empty, or the discriminant is none of
  \<^verbatim>\<open>none\<close>, \<^verbatim>\<open>console\<close>, \<^verbatim>\<open>http\<close>; what it raises is a \<^verbatim>\<open>ValueError\<close>
  (the error the specification calls InvalidConfiguration). Otherwise it returns the
  no-op transport, the console transport, or an HTTP transport built from the endpoint,
  headers, batch size and timeout of the settings, as the discriminant says.
\<close>

theorem create_transport_cases:
  "(isl (create_transport s) \<longleftrightarrow>
      (settings_type s = ''http'' \<and> (http_endpoint s = None \<or> http_endpoint s = Some []))
      \<or> settings_type s \<notin> {''none'', ''console'', ''http''})
   \<and> (case create_transport s of
         Inl x \<Rightarrow> x = ValueError (if settings_type s = ''http''
                         then ''HTTP endpoint required for HTTP transport''
                         else ''Unsupported transport type: '' @ settings_type s)
       | Inr tr \<Rightarrow> tr =
           (if settings_type s = ''none'' then NoOpTransport
            else if settings_type s = ''console'' then ConsoleTransport
            else HTTPTransport (HTTPTransport_init (the (http_endpoint s)) (http_headers s)
                   (settings_batch_size s) (http_timeout s))))"
  by (auto simp add: create_transport_def split: option.splits)

theorem create_transport_cases_witness:
  "create_transport (http_settings (Some ''http://h'')) =
     Inr (HTTPTransport (HTTPTransport_init ''http://h'' None 100 5)) \<and>
   create_transport (http_settings None) =
     Inl (ValueError ''HTTP endpoint required for HTTP transport'')"
  using create_transport_cases [of "http_settings (Some ''http://h'')"] create_transport_cases [of "http_settings None"]
  by (simp add: http_settings_def create_transport_def)

end
